theory Spec2Isabelle
  imports Main "HOL-Library.AList"
begin

section \<open>Values, contexts, errors\<close>

text \<open>
  A Go value of type \<open>interface{}\<close>, as far as the argument lists of this package need it:
  scalars, and a slice of such values. A variadic call \<open>f(query, args...)\<close> hands the
  callee the list \<open>args\<close> itself; a call \<open>f(query, args)\<close> hands it the one-element list
  whose only element is the slice \<open>args\<close>.
\<close>

datatype val = VNil | VInt int | VString string | VSlice "val list"

text \<open>\<open>context.Context\<close>: the background context, or some other context.\<close>

datatype ctx = Background | Ctx nat

text \<open>The package's sentinel errors (sqrl.go, lines 78 to 91) and the errors of others.\<close>

datatype error =
    ErrRunnerNotSet
  | ErrRunnerNotQueryRunner
  | ErrRunnerNotQueryRunnerContext
  | ErrRunnerNotQueryer
  | ErrRunnerNotQueryerContext
  | Err string

text \<open>\<open>sql.Result\<close>, \<open>RowsScanner\<close> and \<open>*sql.Stmt\<close> are handles owned by the driver.\<close>

datatype sqlResult = SqlResult nat
datatype rowsScanner = Rows nat
datatype sqlStmt = Stmt nat

text \<open>
  Modelled from the spec: the interface \<open>RowScanner\<close> and the struct \<open>Row\<close> with its
  method \<open>Scan\<close> are declared in a file that is not part of the sources at hand. The
  source builds \<open>&Row{RowScanner: r, err: e}\<close> and \<open>&Row{err: e}\<close>; the spec (section 3,
  RowResult) says that such a value carries either a live row cursor or a stored error, and
  that scanning it surfaces the stored error. A scanner is the nil interface, a scanner
  of the driver (identified with what its \<open>Scan\<close> returns), or a \<open>Row\<close>.
\<close>

datatype rowScanner =
    NilScanner
  | Native "error option"
  | Row (Row_RowScanner: rowScanner) (Row_err: "error option")

datatype scanned = Panic | Returned "error option"

fun Scan :: "rowScanner \<Rightarrow> scanned" where
  "Scan NilScanner = Panic"
| "Scan (Native r) = Returned r"
| "Scan (Row inner e) = (case e of Some x \<Rightarrow> Returned (Some x) | None \<Rightarrow> Scan inner)"

section \<open>The trace of calls that reach an underlying handle\<close>

text \<open>
  Every call that this package makes on a handle it was given is recorded, in order. A
  handle answers a call as a function of the calls made so far, so that a database whose
  answers change over time is covered.
\<close>

datatype call =
    ExecCall string "val list"
  | ExecContextCall ctx string "val list"
  | QueryCall string "val list"
  | QueryContextCall ctx string "val list"
  | QueryRowCall string "val list"
  | QueryRowContextCall ctx string "val list"
  | PrepareContextCall ctx string
  | StmtExecContextCall sqlStmt ctx "val list"
  | StmtQueryContextCall sqlStmt ctx "val list"
  | StmtQueryRowContextCall sqlStmt ctx "val list"
  | StmtCloseCall sqlStmt

type_synonym trace = "call list"

type_synonym execer = "trace \<Rightarrow> string \<Rightarrow> val list \<Rightarrow> error + sqlResult"
type_synonym execerContext = "trace \<Rightarrow> ctx \<Rightarrow> string \<Rightarrow> val list \<Rightarrow> error + sqlResult"
type_synonym queryer = "trace \<Rightarrow> string \<Rightarrow> val list \<Rightarrow> error + rowsScanner"
type_synonym queryerContext = "trace \<Rightarrow> ctx \<Rightarrow> string \<Rightarrow> val list \<Rightarrow> error + rowsScanner"
type_synonym queryRower = "trace \<Rightarrow> string \<Rightarrow> val list \<Rightarrow> rowScanner"
type_synonym queryRowerContext = "trace \<Rightarrow> ctx \<Rightarrow> string \<Rightarrow> val list \<Rightarrow> rowScanner"

text \<open>A \<open>Sqlizer\<close> is what its \<open>ToSql\<close> returns: the query, the arguments, the error.\<close>

type_synonym sqlizer = "string \<times> val list \<times> error option"

section \<open>The execution helpers (sqrl.go, lines 93 to 139)\<close>

definition ExecWith :: "execer \<Rightarrow> sqlizer \<Rightarrow> trace \<Rightarrow> (error + sqlResult) \<times> trace" where
  "ExecWith db s tr =
     (case s of (query, args, err) \<Rightarrow>
        (case err of
           Some e \<Rightarrow> (Inl e, tr)
         | None \<Rightarrow> (db tr query args, tr @ [ExecCall query args])))"

definition ExecWithContext ::
  "ctx \<Rightarrow> execerContext \<Rightarrow> sqlizer \<Rightarrow> trace \<Rightarrow> (error + sqlResult) \<times> trace" where
  "ExecWithContext c db s tr =
     (case s of (query, args, err) \<Rightarrow>
        (case err of
           Some e \<Rightarrow> (Inl e, tr)
         | None \<Rightarrow> (db tr c query args, tr @ [ExecContextCall c query args])))"

definition QueryWith :: "queryer \<Rightarrow> sqlizer \<Rightarrow> trace \<Rightarrow> (error + rowsScanner) \<times> trace" where
  "QueryWith db s tr =
     (case s of (query, args, err) \<Rightarrow>
        (case err of
           Some e \<Rightarrow> (Inl e, tr)
         | None \<Rightarrow> (db tr query args, tr @ [QueryCall query args])))"

definition QueryWithContext ::
  "ctx \<Rightarrow> queryerContext \<Rightarrow> sqlizer \<Rightarrow> trace \<Rightarrow> (error + rowsScanner) \<times> trace" where
  "QueryWithContext c db s tr =
     (case s of (query, args, err) \<Rightarrow>
        (case err of
           Some e \<Rightarrow> (Inl e, tr)
         | None \<Rightarrow> (db tr c query args, tr @ [QueryContextCall c query args])))"

text \<open>
  The two single-row helpers have no test of \<open>err\<close>: they call the handle with whatever
  \<open>ToSql\<close> returned and store \<open>err\<close> beside the scanner that comes back.
\<close>

definition QueryRowWith :: "queryRower \<Rightarrow> sqlizer \<Rightarrow> trace \<Rightarrow> rowScanner \<times> trace" where
  "QueryRowWith db s tr =
     (case s of (query, args, err) \<Rightarrow>
        (Row (db tr query args) err, tr @ [QueryRowCall query args]))"

definition QueryRowWithContext ::
  "ctx \<Rightarrow> queryRowerContext \<Rightarrow> sqlizer \<Rightarrow> trace \<Rightarrow> rowScanner \<times> trace" where
  "QueryRowWithContext c db s tr =
     (case s of (query, args, err) \<Rightarrow>
        (Row (db tr c query args) err, tr @ [QueryRowContextCall c query args]))"

section \<open>Handles and runners (sqrl.go, lines 141 to 233)\<close>

text \<open>
  A \<open>BaseRunner\<close> has \<open>Exec\<close> and \<open>ExecContext\<close>; each of the four query methods of this
  package's interfaces is there or not, which is what the type assertions
  \<open>r.BaseRunner.(Queryer)\<close> and the like test.
\<close>

record baseRunner =
  hExec :: execer
  hExecContext :: execerContext
  hQuery :: "queryer option"
  hQueryContext :: "queryerContext option"
  hQueryRow :: "queryRower option"
  hQueryRowContext :: "queryRowerContext option"

text \<open>The method table of a value whose six methods are all there.\<close>

record fullRunner =
  rExec :: execer
  rExecContext :: execerContext
  rQuery :: queryer
  rQueryContext :: queryerContext
  rQueryRow :: queryRower
  rQueryRowContext :: queryRowerContext

text \<open>
  The dynamic type of a handle: \<open>*sql.DB\<close>, \<open>*sql.Tx\<close>, or any other type. The query
  methods of \<open>*sql.DB\<close> and \<open>*sql.Tx\<close> return \<open>*sql.Rows\<close> and \<open>*sql.Row\<close>, not
  \<open>RowsScanner\<close> and \<open>RowScanner\<close>, so neither type has the methods of \<open>Queryer\<close> or
  \<open>QueryRower\<close>: they are no \<open>Runner\<close>, and the source wraps them for that reason.
\<close>

datatype handle = SqlDB fullRunner | SqlTx fullRunner | Other baseRunner

datatype runner =
    DbRunner fullRunner
  | TxRunner fullRunner
  | Direct fullRunner
  | OtherRunner baseRunner

text \<open>The type switch's \<open>case Runner\<close>: the handle seen through the six methods, if it has them.\<close>

definition asRunner :: "baseRunner \<Rightarrow> fullRunner option" where
  "asRunner b =
     (case (hQuery b, hQueryContext b, hQueryRow b, hQueryRowContext b) of
        (Some q, Some qc, Some qr, Some qrc) \<Rightarrow>
          Some \<lparr>rExec = hExec b, rExecContext = hExecContext b, rQuery = q,
                rQueryContext = qc, rQueryRow = qr, rQueryRowContext = qrc\<rparr>
      | _ \<Rightarrow> None)"

definition wrapRunner :: "handle \<Rightarrow> runner" where
  "wrapRunner baseRunner =
     (case baseRunner of
        SqlDB r \<Rightarrow> DbRunner r
      | SqlTx r \<Rightarrow> TxRunner r
      | Other r \<Rightarrow> (case asRunner r of Some full \<Rightarrow> Direct full | None \<Rightarrow> OtherRunner r))"

subsection \<open>The methods of \<open>otherRunner\<close>\<close>

definition otherRunner_Exec ::
  "baseRunner \<Rightarrow> string \<Rightarrow> val list \<Rightarrow> trace \<Rightarrow> (error + sqlResult) \<times> trace" where
  "otherRunner_Exec r query args tr = (hExec r tr query args, tr @ [ExecCall query args])"

definition otherRunner_ExecContext ::
  "baseRunner \<Rightarrow> ctx \<Rightarrow> string \<Rightarrow> val list \<Rightarrow> trace \<Rightarrow> (error + sqlResult) \<times> trace" where
  "otherRunner_ExecContext r c query args tr =
     (hExecContext r tr c query args, tr @ [ExecContextCall c query args])"

definition otherRunner_QueryRow ::
  "baseRunner \<Rightarrow> string \<Rightarrow> val list \<Rightarrow> trace \<Rightarrow> rowScanner \<times> trace" where
  "otherRunner_QueryRow r query args tr =
     (case hQueryRow r of
        None \<Rightarrow> (Row NilScanner (Some ErrRunnerNotQueryRunner), tr)
      | Some queryRower \<Rightarrow>
          (queryRower tr query [VSlice args], tr @ [QueryRowCall query [VSlice args]]))"

definition otherRunner_QueryRowContext ::
  "baseRunner \<Rightarrow> ctx \<Rightarrow> string \<Rightarrow> val list \<Rightarrow> trace \<Rightarrow> rowScanner \<times> trace" where
  "otherRunner_QueryRowContext r c query args tr =
     (case hQueryRowContext r of
        None \<Rightarrow> (Row NilScanner (Some ErrRunnerNotQueryRunnerContext), tr)
      | Some queryRower \<Rightarrow>
          (queryRower tr c query [VSlice args],
           tr @ [QueryRowContextCall c query [VSlice args]]))"

definition otherRunner_Query ::
  "baseRunner \<Rightarrow> string \<Rightarrow> val list \<Rightarrow> trace \<Rightarrow> (error + rowsScanner) \<times> trace" where
  "otherRunner_Query r query args tr =
     (case hQuery r of
        None \<Rightarrow> (Inl ErrRunnerNotQueryer, tr)
      | Some queryer \<Rightarrow> (queryer tr query args, tr @ [QueryCall query args]))"

definition otherRunner_QueryContext ::
  "baseRunner \<Rightarrow> ctx \<Rightarrow> string \<Rightarrow> val list \<Rightarrow> trace \<Rightarrow> (error + rowsScanner) \<times> trace" where
  "otherRunner_QueryContext r c query args tr =
     (case hQueryContext r of
        None \<Rightarrow> (Inl ErrRunnerNotQueryerContext, tr)
      | Some queryer \<Rightarrow> (queryer tr c query args, tr @ [QueryContextCall c query args]))"

subsection \<open>The methods of a runner, whatever its shape\<close>

text \<open>
  \<open>dbRunner\<close> and \<open>txRunner\<close> pass every call on to the embedded \<open>*sql.DB\<close> or \<open>*sql.Tx\<close>
  with \<open>args...\<close>; a handle that is a \<open>Runner\<close> already is called as it is.
\<close>

fun Runner_Exec :: "runner \<Rightarrow> string \<Rightarrow> val list \<Rightarrow> trace \<Rightarrow> (error + sqlResult) \<times> trace" where
  "Runner_Exec (DbRunner d) query args tr = (rExec d tr query args, tr @ [ExecCall query args])"
| "Runner_Exec (TxRunner d) query args tr = (rExec d tr query args, tr @ [ExecCall query args])"
| "Runner_Exec (Direct d) query args tr = (rExec d tr query args, tr @ [ExecCall query args])"
| "Runner_Exec (OtherRunner b) query args tr = otherRunner_Exec b query args tr"

fun Runner_ExecContext ::
  "runner \<Rightarrow> ctx \<Rightarrow> string \<Rightarrow> val list \<Rightarrow> trace \<Rightarrow> (error + sqlResult) \<times> trace" where
  "Runner_ExecContext (DbRunner d) c query args tr =
     (rExecContext d tr c query args, tr @ [ExecContextCall c query args])"
| "Runner_ExecContext (TxRunner d) c query args tr =
     (rExecContext d tr c query args, tr @ [ExecContextCall c query args])"
| "Runner_ExecContext (Direct d) c query args tr =
     (rExecContext d tr c query args, tr @ [ExecContextCall c query args])"
| "Runner_ExecContext (OtherRunner b) c query args tr = otherRunner_ExecContext b c query args tr"

fun Runner_Query :: "runner \<Rightarrow> string \<Rightarrow> val list \<Rightarrow> trace \<Rightarrow> (error + rowsScanner) \<times> trace" where
  "Runner_Query (DbRunner d) query args tr = (rQuery d tr query args, tr @ [QueryCall query args])"
| "Runner_Query (TxRunner d) query args tr = (rQuery d tr query args, tr @ [QueryCall query args])"
| "Runner_Query (Direct d) query args tr = (rQuery d tr query args, tr @ [QueryCall query args])"
| "Runner_Query (OtherRunner b) query args tr = otherRunner_Query b query args tr"

fun Runner_QueryContext ::
  "runner \<Rightarrow> ctx \<Rightarrow> string \<Rightarrow> val list \<Rightarrow> trace \<Rightarrow> (error + rowsScanner) \<times> trace" where
  "Runner_QueryContext (DbRunner d) c query args tr =
     (rQueryContext d tr c query args, tr @ [QueryContextCall c query args])"
| "Runner_QueryContext (TxRunner d) c query args tr =
     (rQueryContext d tr c query args, tr @ [QueryContextCall c query args])"
| "Runner_QueryContext (Direct d) c query args tr =
     (rQueryContext d tr c query args, tr @ [QueryContextCall c query args])"
| "Runner_QueryContext (OtherRunner b) c query args tr = otherRunner_QueryContext b c query args tr"

fun Runner_QueryRow :: "runner \<Rightarrow> string \<Rightarrow> val list \<Rightarrow> trace \<Rightarrow> rowScanner \<times> trace" where
  "Runner_QueryRow (DbRunner d) query args tr =
     (rQueryRow d tr query args, tr @ [QueryRowCall query args])"
| "Runner_QueryRow (TxRunner d) query args tr =
     (rQueryRow d tr query args, tr @ [QueryRowCall query args])"
| "Runner_QueryRow (Direct d) query args tr =
     (rQueryRow d tr query args, tr @ [QueryRowCall query args])"
| "Runner_QueryRow (OtherRunner b) query args tr = otherRunner_QueryRow b query args tr"

fun Runner_QueryRowContext ::
  "runner \<Rightarrow> ctx \<Rightarrow> string \<Rightarrow> val list \<Rightarrow> trace \<Rightarrow> rowScanner \<times> trace" where
  "Runner_QueryRowContext (DbRunner d) c query args tr =
     (rQueryRowContext d tr c query args, tr @ [QueryRowContextCall c query args])"
| "Runner_QueryRowContext (TxRunner d) c query args tr =
     (rQueryRowContext d tr c query args, tr @ [QueryRowContextCall c query args])"
| "Runner_QueryRowContext (Direct d) c query args tr =
     (rQueryRowContext d tr c query args, tr @ [QueryRowContextCall c query args])"
| "Runner_QueryRowContext (OtherRunner b) c query args tr =
     otherRunner_QueryRowContext b c query args tr"

section \<open>The statement cache (the file of \<open>stmtCacher\<close>)\<close>

text \<open>
  Instants and durations are counted in nanoseconds. \<open>time.Since(t)\<close> is
  \<open>time.Now().Sub(t)\<close>, and \<open>Sub\<close> saturates at the ends of the 64-bit range of a
  \<open>Duration\<close>.
\<close>

type_synonym time = int
type_synonym duration = int

definition minDuration :: duration where
  "minDuration = - (2 ^ 63)"

definition maxDuration :: duration where
  "maxDuration = 2 ^ 63 - 1"

definition Sub :: "time \<Rightarrow> time \<Rightarrow> duration" where
  "Sub t u =
     (let d = t - u in
      if d > maxDuration then maxDuration else if d < minDuration then minDuration else d)"

definition Hour :: duration where
  "Hour = 3600 * 1000000000"

definition maxAge :: duration where
  "maxAge = 4 * Hour"

record savedStmt =
  stmt :: sqlStmt
  lastUse :: time

text \<open>
  The wrapped \<open>Preparer\<close> is called through \<open>PrepareContext\<close> only. It returns a statement
  or an error, as \<open>database/sql\<close> does.
\<close>

type_synonym preparer = "trace \<Rightarrow> ctx \<Rightarrow> string \<Rightarrow> error + sqlStmt"

text \<open>
  The methods of \<open>*sql.Stmt\<close> that the cache calls. \<open>QueryRowContext\<close> of \<open>*sql.Stmt\<close>
  always returns a \<open>*sql.Row\<close>, never nil; it is given by what its \<open>Scan\<close> will return.
\<close>

record stmtMethods =
  stmtExecContext :: "trace \<Rightarrow> sqlStmt \<Rightarrow> ctx \<Rightarrow> val list \<Rightarrow> error + sqlResult"
  stmtQueryContext :: "trace \<Rightarrow> sqlStmt \<Rightarrow> ctx \<Rightarrow> val list \<Rightarrow> error + rowsScanner"
  stmtQueryRowContext :: "trace \<Rightarrow> sqlStmt \<Rightarrow> ctx \<Rightarrow> val list \<Rightarrow> error option"

text \<open>
  The cache: the Go map is a list of pairs whose keys are distinct (\<open>wellFormed\<close>), looked up with
  \<open>map_of\<close>; the order of the list stands for the unspecified order in which \<open>range\<close>
  visits a map. The mutex is held from the first to the last statement of
  \<open>PrepareContext\<close> and of one round of the janitor, so each is one step here. \<open>calls\<close> is
  the trace of the calls made on the preparer and on the statements.
\<close>

record stmtCacher =
  prep :: preparer
  cache :: "(string \<times> savedStmt) list"
  calls :: trace

definition wellFormed :: "stmtCacher \<Rightarrow> bool" where
  "wellFormed sc = distinct (map fst (cache sc))"

text \<open>\<open>NewStmtCacher\<close>; the janitor it starts is \<open>cleanupTick\<close> below, once per tick.\<close>

definition NewStmtCacher :: "preparer \<Rightarrow> stmtCacher" where
  "NewStmtCacher p = \<lparr>prep = p, cache = [], calls = []\<rparr>"

text \<open>
  One round of the loop body of \<open>startCleanup\<close>. Each entry is tested with its own reading
  of the clock: \<open>clk k\<close> is what \<open>time.Now()\<close> gives when the entry of key \<open>k\<close> is
  tested. An entry is deleted while the map is ranged over; Go allows that, and since only
  the entry in hand is deleted, every entry there at the start is visited once.
\<close>

fun cleanupScan ::
  "duration \<Rightarrow> (string \<Rightarrow> time) \<Rightarrow> (string \<times> savedStmt) list \<Rightarrow> stmtCacher \<Rightarrow> stmtCacher" where
  "cleanupScan age clk [] sc = sc"
| "cleanupScan age clk ((k, v) # kvs) sc =
     cleanupScan age clk kvs
       (if Sub (clk k) (lastUse v) > age
        then sc\<lparr>calls := calls sc @ [StmtCloseCall (stmt v)],
                cache := AList.delete k (cache sc)\<rparr>
        else sc)"

definition cleanupTick :: "duration \<Rightarrow> (string \<Rightarrow> time) \<Rightarrow> stmtCacher \<Rightarrow> stmtCacher" where
  "cleanupTick age clk sc = cleanupScan age clk (cache sc) sc"

text \<open>\<open>now\<close> is what \<open>time.Now()\<close> gives in this call.\<close>

definition PrepareContext ::
  "time \<Rightarrow> ctx \<Rightarrow> string \<Rightarrow> stmtCacher \<Rightarrow> (error + sqlStmt) \<times> stmtCacher" where
  "PrepareContext now c query sc =
     (case map_of (cache sc) query of
        Some s \<Rightarrow>
          (Inr (stmt s), sc\<lparr>cache := AList.update query (s\<lparr>lastUse := now\<rparr>) (cache sc)\<rparr>)
      | None \<Rightarrow>
          (case prep sc (calls sc) c query of
             Inl e \<Rightarrow> (Inl e, sc\<lparr>calls := calls sc @ [PrepareContextCall c query]\<rparr>)
           | Inr st \<Rightarrow>
               (Inr st,
                sc\<lparr>calls := calls sc @ [PrepareContextCall c query],
                   cache := AList.update query \<lparr>stmt = st, lastUse = now\<rparr> (cache sc)\<rparr>)))"

definition ExecContext ::
  "stmtMethods \<Rightarrow> time \<Rightarrow> ctx \<Rightarrow> string \<Rightarrow> val list \<Rightarrow> stmtCacher
     \<Rightarrow> (error + sqlResult) \<times> stmtCacher" where
  "ExecContext m now c query args sc =
     (case PrepareContext now c query sc of
        (Inl e, sc') \<Rightarrow> (Inl e, sc')
      | (Inr st, sc') \<Rightarrow>
          (stmtExecContext m (calls sc') st c args,
           sc'\<lparr>calls := calls sc' @ [StmtExecContextCall st c args]\<rparr>))"

definition QueryContext ::
  "stmtMethods \<Rightarrow> time \<Rightarrow> ctx \<Rightarrow> string \<Rightarrow> val list \<Rightarrow> stmtCacher
     \<Rightarrow> (error + rowsScanner) \<times> stmtCacher" where
  "QueryContext m now c query args sc =
     (case PrepareContext now c query sc of
        (Inl e, sc') \<Rightarrow> (Inl e, sc')
      | (Inr st, sc') \<Rightarrow>
          (stmtQueryContext m (calls sc') st c args,
           sc'\<lparr>calls := calls sc' @ [StmtQueryContextCall st c args]\<rparr>))"

definition QueryRowContext ::
  "stmtMethods \<Rightarrow> time \<Rightarrow> ctx \<Rightarrow> string \<Rightarrow> val list \<Rightarrow> stmtCacher
     \<Rightarrow> rowScanner \<times> stmtCacher" where
  "QueryRowContext m now c query args sc =
     (case PrepareContext now c query sc of
        (Inl e, sc') \<Rightarrow> (Row NilScanner (Some e), sc')
      | (Inr st, sc') \<Rightarrow>
          (Native (stmtQueryRowContext m (calls sc') st c args),
           sc'\<lparr>calls := calls sc' @ [StmtQueryRowContextCall st c args]\<rparr>))"

definition Prepare :: "time \<Rightarrow> string \<Rightarrow> stmtCacher \<Rightarrow> (error + sqlStmt) \<times> stmtCacher" where
  "Prepare now query sc = PrepareContext now Background query sc"

definition Exec ::
  "stmtMethods \<Rightarrow> time \<Rightarrow> string \<Rightarrow> val list \<Rightarrow> stmtCacher \<Rightarrow> (error + sqlResult) \<times> stmtCacher" where
  "Exec m now query args sc = ExecContext m now Background query args sc"

definition Query ::
  "stmtMethods \<Rightarrow> time \<Rightarrow> string \<Rightarrow> val list \<Rightarrow> stmtCacher
     \<Rightarrow> (error + rowsScanner) \<times> stmtCacher" where
  "Query m now query args sc = QueryContext m now Background query args sc"

definition QueryRow ::
  "stmtMethods \<Rightarrow> time \<Rightarrow> string \<Rightarrow> val list \<Rightarrow> stmtCacher \<Rightarrow> rowScanner \<times> stmtCacher" where
  "QueryRow m now query args sc = QueryRowContext m now Background query args sc"

text \<open>
  What happens to a cache over time: calls of \<open>PrepareContext\<close> and rounds of the janitor
  of \<open>NewStmtCacher\<close>, whose period and threshold are both \<open>maxAge\<close>.
\<close>

datatype event = EvPrepare time ctx string | EvTick "string \<Rightarrow> time"

fun step :: "event \<Rightarrow> stmtCacher \<Rightarrow> stmtCacher" where
  "step (EvPrepare now c query) sc = snd (PrepareContext now c query sc)"
| "step (EvTick clk) sc = cleanupTick maxAge clk sc"

fun run :: "event list \<Rightarrow> stmtCacher \<Rightarrow> stmtCacher" where
  "run [] sc = sc"
| "run (ev # evs) sc = run evs (step ev sc)"

section \<open>Notions used in the statements\<close>

text \<open>The janitor's test on one entry: \<open>time.Since(v.lastUse) > maxAge\<close>.\<close>

definition expired :: "duration \<Rightarrow> (string \<Rightarrow> time) \<Rightarrow> string \<times> savedStmt \<Rightarrow> bool" where
  "expired age clk kv = (Sub (clk (fst kv)) (lastUse (snd kv)) > age)"

text \<open>
  An event lies in the window that opens at \<open>t0\<close> for the query \<open>q\<close>: the clock of a call
  is not before \<open>t0\<close>, and the janitor reaches the entry of \<open>q\<close> no later than \<open>maxAge\<close>
  after \<open>t0\<close>.
\<close>

fun inWindow :: "time \<Rightarrow> string \<Rightarrow> event \<Rightarrow> bool" where
  "inWindow t0 q (EvPrepare now c query) = (t0 \<le> now)"
| "inWindow t0 q (EvTick clk) = (clk q - t0 \<le> maxAge)"

text \<open>The cache holds the statement \<open>h\<close> for \<open>q\<close>, last used at \<open>t0\<close> or later.\<close>

definition cachedSince :: "time \<Rightarrow> string \<Rightarrow> sqlStmt \<Rightarrow> stmtCacher \<Rightarrow> bool" where
  "cachedSince t0 q h sc =
     (wellFormed sc \<and>
      (case map_of (cache sc) q of None \<Rightarrow> False | Some s \<Rightarrow> stmt s = h \<and> t0 \<le> lastUse s))"

text \<open>
  The type switch of \<open>wrapRunner\<close> with the order of its cases kept. Go tests the cases
  of a type switch from the first to the last and runs the body of the first whose type
  the value has; when none has, it runs the default. \<open>caseOf\<close> is one case: nothing when
  the handle has not the type of the case, the body on the handle otherwise.
  Whether a handle is a \<open>Runner\<close> is read from its methods; \<open>*sql.DB\<close> and \<open>*sql.Tx\<close>
  are none, as said above.
\<close>

definition satisfiesRunner :: "handle \<Rightarrow> fullRunner option" where
  "satisfiesRunner h = (case h of Other b \<Rightarrow> asRunner b | SqlDB d \<Rightarrow> None | SqlTx d \<Rightarrow> None)"

datatype typeCase = CaseSqlDB | CaseSqlTx | CaseRunner

fun caseOf :: "typeCase \<Rightarrow> handle \<Rightarrow> runner option" where
  "caseOf CaseSqlDB h = (case h of SqlDB r \<Rightarrow> Some (DbRunner r) | SqlTx r \<Rightarrow> None | Other r \<Rightarrow> None)"
| "caseOf CaseSqlTx h = (case h of SqlDB r \<Rightarrow> None | SqlTx r \<Rightarrow> Some (TxRunner r) | Other r \<Rightarrow> None)"
| "caseOf CaseRunner h = (case satisfiesRunner h of Some r \<Rightarrow> Some (Direct r) | None \<Rightarrow> None)"

text \<open>
  The default wraps the handle as a \<open>BaseRunner\<close>, whatever its type. As a \<open>BaseRunner\<close>,
  \<open>*sql.DB\<close> or \<open>*sql.Tx\<close> has \<open>Exec\<close> and \<open>ExecContext\<close> and none of this package's
  four query interfaces.
\<close>

definition asBaseRunner :: "handle \<Rightarrow> baseRunner" where
  "asBaseRunner h =
     (case h of
        Other b \<Rightarrow> b
      | SqlDB d \<Rightarrow>
          \<lparr>hExec = rExec d, hExecContext = rExecContext d, hQuery = None,
           hQueryContext = None, hQueryRow = None, hQueryRowContext = None\<rparr>
      | SqlTx d \<Rightarrow>
          \<lparr>hExec = rExec d, hExecContext = rExecContext d, hQuery = None,
           hQueryContext = None, hQueryRow = None, hQueryRowContext = None\<rparr>)"

definition defaultCase :: "handle \<Rightarrow> runner" where
  "defaultCase h = OtherRunner (asBaseRunner h)"

text \<open>The runner a switch returns, and the cases it has tested on the way, in order.\<close>

fun typeSwitch :: "typeCase list \<Rightarrow> handle \<Rightarrow> runner \<times> typeCase list" where
  "typeSwitch [] h = (defaultCase h, [])"
| "typeSwitch (t # ts) h =
     (case caseOf t h of
        Some r \<Rightarrow> (r, [t])
      | None \<Rightarrow> (case typeSwitch ts h of (r, tested) \<Rightarrow> (r, t # tested)))"

text \<open>The cases of \<open>wrapRunner\<close> as the source lists them (sqrl.go, lines 223, 225, 227).\<close>

definition wrapRunner_cases :: "typeCase list" where
  "wrapRunner_cases = [CaseSqlDB, CaseSqlTx, CaseRunner]"

text \<open>
  The order of checks as the specification words it: first whether the handle is a
  \<open>Runner\<close> as it stands, then the two types of \<open>database/sql\<close>, then the guarded
  adapter.
\<close>

definition wrapRunner_cases_spec :: "typeCase list" where
  "wrapRunner_cases_spec = [CaseRunner, CaseSqlDB, CaseSqlTx]"

definition wrapRunner_spec :: "handle \<Rightarrow> runner" where
  "wrapRunner_spec h =
     (case satisfiesRunner h of
        Some full \<Rightarrow> Direct full
      | None \<Rightarrow>
          (case h of
             SqlDB d \<Rightarrow> DbRunner d
           | SqlTx d \<Rightarrow> TxRunner d
           | Other b \<Rightarrow> OtherRunner b))"

section \<open>Handles, builders and caches to run the code on\<close>

text \<open>
  What \<open>ToSql\<close> of a \<open>ValuesBuilder\<close> without rows returns: the error, with the named
  results \<open>sqlStr\<close> and \<open>args\<close> still unset.
\<close>

definition emptyValues :: sqlizer where
  "emptyValues = ('''', [], Some (Err ''values list is empty''))"

text \<open>A handle with all six methods, and one with \<open>Exec\<close> and \<open>ExecContext\<close> only.\<close>

definition answering :: baseRunner where
  "answering =
     \<lparr>hExec = (\<lambda>tr query args. Inr (SqlResult (length tr))),
      hExecContext = (\<lambda>tr c query args. Inr (SqlResult (length tr))),
      hQuery = Some (\<lambda>tr query args. Inr (Rows (length tr))),
      hQueryContext = Some (\<lambda>tr c query args. Inr (Rows (length tr))),
      hQueryRow = Some (\<lambda>tr query args. Native None),
      hQueryRowContext = Some (\<lambda>tr c query args. Native None)\<rparr>"

definition execOnly :: baseRunner where
  "execOnly =
     \<lparr>hExec = (\<lambda>tr query args. Inr (SqlResult (length tr))),
      hExecContext = (\<lambda>tr c query args. Inr (SqlResult (length tr))),
      hQuery = None, hQueryContext = None, hQueryRow = None, hQueryRowContext = None\<rparr>"

text \<open>
  A preparer that numbers its statements by the calls made so far, and one that accepts a
  single query.
\<close>

definition numbering :: preparer where
  "numbering tr c query = Inr (Stmt (length tr))"

definition selective :: preparer where
  "selective tr c query =
     (if query = ''SELECT 1'' then Inr (Stmt 1) else Inl (Err ''syntax error''))"

definition twoEntries :: stmtCacher where
  "twoEntries =
     \<lparr>prep = selective,
      cache = [(''SELECT 1'', \<lparr>stmt = Stmt 1, lastUse = 0\<rparr>),
               (''SELECT 2'', \<lparr>stmt = Stmt 2, lastUse = 3 * Hour\<rparr>)],
      calls = []\<rparr>"

definition plainStmts :: stmtMethods where
  "plainStmts =
     \<lparr>stmtExecContext = (\<lambda>tr st c args. Inr (SqlResult 0)),
      stmtQueryContext = (\<lambda>tr st c args. Inr (Rows 0)),
      stmtQueryRowContext = (\<lambda>tr st c args. None)\<rparr>"

section \<open>The execution helpers\<close>

text \<open>
  The four helpers that return an error beside their result stop at a render error: the
  trace is as it was, whatever the handle, and the error is the one \<open>ToSql\<close> gave.
\<close>

lemma render_failure_short_circuit:
  "ExecWith db (query, args, Some e) tr = (Inl e, tr)"
  "ExecWithContext c dbc (query, args, Some e) tr = (Inl e, tr)"
  "QueryWith qdb (query, args, Some e) tr = (Inl e, tr)"
  "QueryWithContext c qdbc (query, args, Some e) tr = (Inl e, tr)"
  by (simp_all add: ExecWith_def ExecWithContext_def QueryWith_def QueryWithContext_def)

text \<open>
  C1. After a render error no call should reach the handle. \<open>QueryRowWith\<close> and
  \<open>QueryRowWithContext\<close> do call it: given a values builder without rows they run
  \<open>QueryRow\<close> with the empty query and no arguments, and keep the render error in the
  \<open>Row\<close> they return.
\<close>

theorem QueryRowWith_calls_handle_after_render_failure:
  "QueryRowWith (\<lambda>tr query args. Native None) emptyValues [] =
     (Row (Native None) (Some (Err ''values list is empty'')), [QueryRowCall '''' []]) \<and>
   QueryRowWithContext Background (\<lambda>tr c query args. Native None) emptyValues [] =
     (Row (Native None) (Some (Err ''values list is empty'')),
      [QueryRowContextCall Background '''' []])"
  by (simp add: QueryRowWith_def QueryRowWithContext_def emptyValues_def)

section \<open>The runner adapter\<close>

text \<open>\<open>Query\<close> and \<open>QueryContext\<close> of the guarded adapter pass query and arguments on as they are.\<close>

lemma otherRunner_Query_delegates:
  "hQuery b = Some f \<Longrightarrow>
     otherRunner_Query b query args tr = (f tr query args, tr @ [QueryCall query args])"
  "hQueryContext b = Some g \<Longrightarrow>
     otherRunner_QueryContext b c query args tr =
       (g tr c query args, tr @ [QueryContextCall c query args])"
  by (simp_all add: otherRunner_Query_def otherRunner_QueryContext_def)

text \<open>
  C3. The guarded adapter should hand the argument list to the capability unchanged.
  \<open>QueryRow\<close> and \<open>QueryRowContext\<close> write \<open>args\<close> where \<open>Query\<close> writes \<open>args...\<close>: on
  a handle that has the method, called with the one argument \<open>1\<close>, the handle receives
  one argument that is the slice holding \<open>1\<close>.
\<close>

theorem otherRunner_QueryRow_nests_args:
  "snd (otherRunner_QueryRow answering ''SELECT ?'' [VInt 1] []) =
     [QueryRowCall ''SELECT ?'' [VSlice [VInt 1]]] \<and>
   snd (otherRunner_QueryRow answering ''SELECT ?'' [VInt 1] []) \<noteq>
     [QueryRowCall ''SELECT ?'' [VInt 1]] \<and>
   snd (otherRunner_QueryRowContext answering Background ''SELECT ?'' [VInt 1] []) =
     [QueryRowContextCall Background ''SELECT ?'' [VSlice [VInt 1]]]"
  by (simp add: otherRunner_QueryRow_def otherRunner_QueryRowContext_def answering_def)

text \<open>
  C6. A handle with \<open>Exec\<close> and \<open>ExecContext\<close> only is wrapped in the guarded adapter.
  On the runner so made, \<open>Query\<close>, \<open>QueryContext\<close>, \<open>QueryRow\<close> and \<open>QueryRowContext\<close> make
  no call and give \<open>ErrRunnerNotQueryer\<close>, \<open>ErrRunnerNotQueryerContext\<close>, a row storing
  \<open>ErrRunnerNotQueryRunner\<close> and a row storing \<open>ErrRunnerNotQueryRunnerContext\<close>; the
  four errors differ from one another; \<open>Exec\<close> and \<open>ExecContext\<close> call the handle with
  the same query and arguments and return what it returns.
\<close>

theorem wrapRunner_exec_only:
  assumes "hQuery b = None" and "hQueryContext b = None"
    and "hQueryRow b = None" and "hQueryRowContext b = None"
  shows "wrapRunner (Other b) = OtherRunner b \<and>
         Runner_Query (wrapRunner (Other b)) query args tr = (Inl ErrRunnerNotQueryer, tr) \<and>
         Runner_QueryContext (wrapRunner (Other b)) c query args tr =
           (Inl ErrRunnerNotQueryerContext, tr) \<and>
         Runner_QueryRow (wrapRunner (Other b)) query args tr =
           (Row NilScanner (Some ErrRunnerNotQueryRunner), tr) \<and>
         Runner_QueryRowContext (wrapRunner (Other b)) c query args tr =
           (Row NilScanner (Some ErrRunnerNotQueryRunnerContext), tr) \<and>
         distinct [ErrRunnerNotQueryer, ErrRunnerNotQueryerContext, ErrRunnerNotQueryRunner,
                   ErrRunnerNotQueryRunnerContext] \<and>
         Runner_Exec (wrapRunner (Other b)) query args tr =
           (hExec b tr query args, tr @ [ExecCall query args]) \<and>
         Runner_ExecContext (wrapRunner (Other b)) c query args tr =
           (hExecContext b tr c query args, tr @ [ExecContextCall c query args])"
proof -
  have w: "wrapRunner (Other b) = OtherRunner b"
    using assms by (simp add: wrapRunner_def asRunner_def)
  show ?thesis
    unfolding w using assms
    by (simp add: otherRunner_Query_def otherRunner_QueryContext_def otherRunner_QueryRow_def
        otherRunner_QueryRowContext_def otherRunner_Exec_def otherRunner_ExecContext_def)
qed

theorem wrapRunner_exec_only_witness:
  "hQuery execOnly = None \<and> hQueryContext execOnly = None \<and>
   hQueryRow execOnly = None \<and> hQueryRowContext execOnly = None \<and>
   Runner_Query (wrapRunner (Other execOnly)) ''DELETE FROM t WHERE id = ?'' [VInt 3] [] =
     (Inl ErrRunnerNotQueryer, []) \<and>
   Runner_QueryContext (wrapRunner (Other execOnly)) (Ctx 1) ''DELETE FROM t WHERE id = ?''
       [VInt 3] [] =
     (Inl ErrRunnerNotQueryerContext, []) \<and>
   Runner_QueryRow (wrapRunner (Other execOnly)) ''DELETE FROM t WHERE id = ?'' [VInt 3] [] =
     (Row NilScanner (Some ErrRunnerNotQueryRunner), []) \<and>
   Runner_QueryRowContext (wrapRunner (Other execOnly)) (Ctx 1) ''DELETE FROM t WHERE id = ?''
       [VInt 3] [] =
     (Row NilScanner (Some ErrRunnerNotQueryRunnerContext), []) \<and>
   Runner_Exec (wrapRunner (Other execOnly)) ''DELETE FROM t WHERE id = ?'' [VInt 3] [] =
     (Inr (SqlResult 0), [ExecCall ''DELETE FROM t WHERE id = ?'' [VInt 3]]) \<and>
   Runner_ExecContext (wrapRunner (Other execOnly)) (Ctx 1) ''DELETE FROM t WHERE id = ?''
       [VInt 3] [] =
     (Inr (SqlResult 0), [ExecContextCall (Ctx 1) ''DELETE FROM t WHERE id = ?'' [VInt 3]])"
proof -
  have a: "hQuery execOnly = None" and b: "hQueryContext execOnly = None"
    and c: "hQueryRow execOnly = None" and d: "hQueryRowContext execOnly = None"
    by (simp_all add: execOnly_def)
  have e: "hExec execOnly [] ''DELETE FROM t WHERE id = ?'' [VInt 3] = Inr (SqlResult 0)"
    and f: "hExecContext execOnly [] (Ctx 1) ''DELETE FROM t WHERE id = ?'' [VInt 3] =
              Inr (SqlResult 0)"
    by (simp_all add: execOnly_def)
  show ?thesis
    using wrapRunner_exec_only [OF a b c d, THEN conjunct2,
        of "''DELETE FROM t WHERE id = ?''" "[VInt 3]" "[]" "Ctx 1"]
      a b c d e f
    by simp
qed

text \<open>
  Whatever the order of the three cases, the runner is the same, since no handle has the
  type of two of them: the order the specification words gives the runner of the source.
\<close>

lemma wrapRunner_result_order_free:
  "wrapRunner h = wrapRunner_spec h"
  "fst (typeSwitch wrapRunner_cases_spec h) = wrapRunner h"
  by (cases h;
      simp add: wrapRunner_def wrapRunner_spec_def wrapRunner_cases_spec_def satisfiesRunner_def
        defaultCase_def asBaseRunner_def split: option.splits)+

text \<open>
  C8, as stated: a handle that is a \<open>Runner\<close> is detected first, before \<open>*sql.DB\<close> and
  \<open>*sql.Tx\<close> are tried. The source does not do so. On a handle with all six methods the
  switch of \<open>wrapRunner\<close> tests \<open>*sql.DB\<close>, then \<open>*sql.Tx\<close>, and \<open>Runner\<close> third; in the
  stated order it would test \<open>Runner\<close> and nothing else.
\<close>

theorem wrapRunner_tests_sql_types_first:
  "caseOf CaseRunner (Other answering) \<noteq> None \<and>
   snd (typeSwitch wrapRunner_cases (Other answering)) = [CaseSqlDB, CaseSqlTx, CaseRunner] \<and>
   snd (typeSwitch wrapRunner_cases_spec (Other answering)) = [CaseRunner] \<and>
   snd (typeSwitch wrapRunner_cases (Other answering)) \<noteq>
     snd (typeSwitch wrapRunner_cases_spec (Other answering))"
  by (simp add: wrapRunner_cases_def wrapRunner_cases_spec_def satisfiesRunner_def asRunner_def
      answering_def)

text \<open>
  C8, in the order of the source. \<open>wrapRunner\<close> is the switch over the cases \<open>*sql.DB\<close>, \<open>*sql.Tx\<close>,
  \<open>Runner\<close>, in this order, with the guarded adapter as its default. It tests
  \<open>*sql.DB\<close> first, \<open>*sql.Tx\<close> second and \<open>Runner\<close> third, and stops at the first case
  that the handle meets. A \<open>*sql.DB\<close> and a \<open>*sql.Tx\<close> get their wrappers; a handle
  that is a \<open>Runner\<close> is returned as it is, with no wrapping; only a handle that meets
  none of the three cases is wrapped in the guarded adapter.
\<close>

theorem wrapRunner_order:
  "fst (typeSwitch wrapRunner_cases h) = wrapRunner h \<and>
   snd (typeSwitch wrapRunner_cases h) =
     (case h of
        SqlDB d \<Rightarrow> [CaseSqlDB]
      | SqlTx d \<Rightarrow> [CaseSqlDB, CaseSqlTx]
      | Other b \<Rightarrow> [CaseSqlDB, CaseSqlTx, CaseRunner]) \<and>
   wrapRunner h =
     (case h of
        SqlDB d \<Rightarrow> DbRunner d
      | SqlTx d \<Rightarrow> TxRunner d
      | Other b \<Rightarrow> (case asRunner b of Some full \<Rightarrow> Direct full | None \<Rightarrow> OtherRunner b))"
  by (cases h;
      simp add: wrapRunner_def wrapRunner_cases_def satisfiesRunner_def defaultCase_def
        asBaseRunner_def split: option.splits)

theorem wrapRunner_order_witness:
  "fst (typeSwitch wrapRunner_cases (Other execOnly)) = OtherRunner execOnly \<and>
   snd (typeSwitch wrapRunner_cases (Other execOnly)) = [CaseSqlDB, CaseSqlTx, CaseRunner] \<and>
   wrapRunner (Other execOnly) = OtherRunner execOnly"
proof -
  have a: "asRunner execOnly = None"
    by (simp add: asRunner_def execOnly_def)
  show ?thesis
    using wrapRunner_order [of "Other execOnly"] a by simp
qed

section \<open>The statement cache\<close>

subsection \<open>The keys stay distinct\<close>

lemma NewStmtCacher_wellFormed: "wellFormed (NewStmtCacher p)"
  by (simp add: wellFormed_def NewStmtCacher_def)

lemma PrepareContext_wellFormed:
  "wellFormed sc \<Longrightarrow> wellFormed (snd (PrepareContext now c q sc))"
  by (simp add: PrepareContext_def wellFormed_def distinct_update split: option.splits sum.splits)

subsection \<open>One round of the janitor\<close>

lemma delete_fresh: "k \<notin> fst ` set xs \<Longrightarrow> AList.delete k xs = xs"
  by (induction xs) (auto simp: AList.delete_eq)

lemma delete_middle:
  "distinct (map fst (pre @ (k, v) # kvs)) \<Longrightarrow> AList.delete k (pre @ (k, v) # kvs) = pre @ kvs"
  using delete_fresh [of k pre] delete_fresh [of k kvs]
  by (simp add: AList.delete_eq)

text \<open>
  The scan, started in the middle of the list: the entries before the point reached are
  the ones kept so far.
\<close>

lemma cleanupScan_split:
  "distinct (map fst (pre @ kvs)) \<Longrightarrow> cache sc = pre @ kvs \<Longrightarrow>
   cache (cleanupScan age clk kvs sc) = pre @ filter (\<lambda>kv. \<not> expired age clk kv) kvs \<and>
   calls (cleanupScan age clk kvs sc) =
     calls sc @ map (\<lambda>kv. StmtCloseCall (stmt (snd kv))) (filter (expired age clk) kvs) \<and>
   prep (cleanupScan age clk kvs sc) = prep sc"
proof (induction kvs arbitrary: pre sc)
  case Nil
  then show ?case by simp
next
  case (Cons kv kvs)
  obtain k v where kv: "kv = (k, v)" by (cases kv)
  show ?case
  proof (cases "expired age clk kv")
    case True
    let ?sc = "sc\<lparr>calls := calls sc @ [StmtCloseCall (stmt v)],
                   cache := AList.delete k (cache sc)\<rparr>"
    have c: "cache ?sc = pre @ kvs"
      using Cons.prems delete_middle [of pre k v kvs] by (simp add: kv)
    have d: "distinct (map fst (pre @ kvs))" using Cons.prems by (simp add: kv)
    from Cons.IH [OF d c] True show ?thesis
      by (simp add: kv expired_def)
  next
    case False
    have c: "cache sc = (pre @ [kv]) @ kvs" using Cons.prems by simp
    have d: "distinct (map fst ((pre @ [kv]) @ kvs))" using Cons.prems by simp
    from Cons.IH [OF d c] False show ?thesis
      by (simp add: kv expired_def)
  qed
qed

lemma cleanupTick_cache:
  "wellFormed sc \<Longrightarrow>
   cache (cleanupTick age clk sc) = filter (\<lambda>kv. \<not> expired age clk kv) (cache sc)"
  using cleanupScan_split [of "[]" "cache sc" sc age clk]
  by (simp add: wellFormed_def cleanupTick_def)

lemma cleanupTick_calls:
  "wellFormed sc \<Longrightarrow>
   calls (cleanupTick age clk sc) =
     calls sc @ map (\<lambda>kv. StmtCloseCall (stmt (snd kv))) (filter (expired age clk) (cache sc))"
  using cleanupScan_split [of "[]" "cache sc" sc age clk]
  by (simp add: wellFormed_def cleanupTick_def)

lemma cleanupTick_prep: "wellFormed sc \<Longrightarrow> prep (cleanupTick age clk sc) = prep sc"
  using cleanupScan_split [of "[]" "cache sc" sc age clk]
  by (simp add: wellFormed_def cleanupTick_def)

lemma cleanupTick_wellFormed: "wellFormed sc \<Longrightarrow> wellFormed (cleanupTick age clk sc)"
  using cleanupTick_cache [of sc age clk] by (simp add: wellFormed_def distinct_map_filter)

text \<open>Every cache reached from a new one has distinct keys.\<close>

lemma step_wellFormed: "wellFormed sc \<Longrightarrow> wellFormed (step ev sc)"
  by (cases ev) (simp_all add: PrepareContext_wellFormed cleanupTick_wellFormed)

lemma run_wellFormed: "wellFormed sc \<Longrightarrow> wellFormed (run evs sc)"
  by (induction evs arbitrary: sc) (simp_all add: step_wellFormed)

lemma reachable_wellFormed: "wellFormed (run evs (NewStmtCacher p))"
  by (rule run_wellFormed) (rule NewStmtCacher_wellFormed)

lemma lookup_filter_absent: "map_of al key = None \<Longrightarrow> map_of (filter Q al) key = None"
  by (auto simp: map_of_eq_None_iff)

lemma lookup_filter_present:
  assumes "distinct (map fst al)" and "map_of al key = Some v"
  shows "map_of (filter Q al) key = (if Q (key, v) then Some v else None)"
  using assms
proof (induction al)
  case Nil
  then show ?case by simp
next
  case (Cons p al)
  show ?case
  proof (cases "fst p = key")
    case True
    then have "key \<notin> fst ` set al" using Cons.prems(1) by auto
    then have "map_of (filter Q al) key = None"
      by (auto simp: map_of_eq_None_iff)
    moreover have "snd p = v" using True Cons.prems(2) by (cases p) simp
    ultimately show ?thesis using True by (cases p) auto
  next
    case False
    then have "map_of al key = Some v" using Cons.prems(2) by (cases p) auto
    then show ?thesis using Cons.IH Cons.prems(1) False by (cases p) auto
  qed
qed

lemma cleanupTick_lookup:
  "wellFormed sc \<Longrightarrow>
   map_of (cache (cleanupTick age clk sc)) k =
     (case map_of (cache sc) k of
        None \<Rightarrow> None
      | Some v \<Rightarrow> if Sub (clk k) (lastUse v) > age then None else Some v)"
proof (cases "map_of (cache sc) k")
  case None
  assume "wellFormed sc"
  then show ?thesis
    using None lookup_filter_absent [OF None] by (simp add: cleanupTick_cache)
next
  case (Some v)
  assume w: "wellFormed sc"
  then have "distinct (map fst (cache sc))" by (simp add: wellFormed_def)
  from lookup_filter_present [OF this Some] w show ?thesis
    by (simp add: cleanupTick_cache Some expired_def)
qed

text \<open>
  C5. One round of the janitor. The entries whose idle time is above the maximal age are
  gone from the map, the others are there as they were, in their order; the round calls
  \<open>Close\<close> once for each entry it removes, on that entry's statement, and makes no other
  call. Read key by key: a key that is idle too long is absent afterwards, any other key
  maps to what it mapped to.
\<close>

theorem cleanupTick_evicts_idle:
  assumes "wellFormed sc"
  shows "cache (cleanupTick age clk sc) = filter (\<lambda>kv. \<not> expired age clk kv) (cache sc) \<and>
         calls (cleanupTick age clk sc) =
           calls sc @
           map (\<lambda>kv. StmtCloseCall (stmt (snd kv))) (filter (expired age clk) (cache sc)) \<and>
         (\<forall>k. map_of (cache (cleanupTick age clk sc)) k =
            (case map_of (cache sc) k of
               None \<Rightarrow> None
             | Some v \<Rightarrow> if Sub (clk k) (lastUse v) > age then None else Some v))"
proof (intro conjI allI)
  show "cache (cleanupTick age clk sc) = filter (\<lambda>kv. \<not> expired age clk kv) (cache sc)"
    using assms by (rule cleanupTick_cache)
  show "calls (cleanupTick age clk sc) =
          calls sc @
          map (\<lambda>kv. StmtCloseCall (stmt (snd kv))) (filter (expired age clk) (cache sc))"
    using assms by (rule cleanupTick_calls)
  fix k
  show "map_of (cache (cleanupTick age clk sc)) k =
          (case map_of (cache sc) k of
             None \<Rightarrow> None
           | Some v \<Rightarrow> if Sub (clk k) (lastUse v) > age then None else Some v)"
    using assms by (rule cleanupTick_lookup)
qed

theorem cleanupTick_evicts_idle_witness:
  "wellFormed twoEntries \<and>
   cache (cleanupTick maxAge (\<lambda>k. 5 * Hour) twoEntries) =
     [(''SELECT 2'', \<lparr>stmt = Stmt 2, lastUse = 3 * Hour\<rparr>)] \<and>
   calls (cleanupTick maxAge (\<lambda>k. 5 * Hour) twoEntries) = [StmtCloseCall (Stmt 1)] \<and>
   map_of (cache (cleanupTick maxAge (\<lambda>k. 5 * Hour) twoEntries)) ''SELECT 1'' = None \<and>
   map_of (cache (cleanupTick maxAge (\<lambda>k. 5 * Hour) twoEntries)) ''SELECT 2'' =
     Some \<lparr>stmt = Stmt 2, lastUse = 3 * Hour\<rparr>"
proof -
  have w: "wellFormed twoEntries"
    by (simp add: wellFormed_def twoEntries_def)
  show ?thesis
    using cleanupTick_evicts_idle [OF w, of maxAge "\<lambda>k. 5 * Hour"] w
    by (simp add: twoEntries_def expired_def Sub_def Let_def maxAge_def Hour_def
        minDuration_def maxDuration_def)
qed

subsection \<open>Preparing a statement\<close>

lemma PrepareContext_hit:
  "map_of (cache sc) q = Some s \<Longrightarrow>
   PrepareContext now c q sc =
     (Inr (stmt s), sc\<lparr>cache := AList.update q (s\<lparr>lastUse := now\<rparr>) (cache sc)\<rparr>)"
  by (simp add: PrepareContext_def)

lemma PrepareContext_lookup:
  "map_of (cache (snd (PrepareContext now c q' sc))) q =
     (if q' = q
      then (case map_of (cache sc) q of
              Some s \<Rightarrow> Some (s\<lparr>lastUse := now\<rparr>)
            | None \<Rightarrow> (case prep sc (calls sc) c q of
                         Inl e \<Rightarrow> None
                       | Inr st \<Rightarrow> Some \<lparr>stmt = st, lastUse = now\<rparr>))
      else map_of (cache sc) q)"
  by (simp add: PrepareContext_def update_conv' split: option.splits sum.splits)

text \<open>
  C4. When the query is not in the cache and the preparer fails, \<open>PrepareContext\<close>
  returns the preparer's error and the cache is the one before the call.
\<close>

theorem PrepareContext_failure_leaves_cache:
  assumes "map_of (cache sc) query = None"
    and "prep sc (calls sc) c query = Inl e"
  shows "fst (PrepareContext now c query sc) = Inl e \<and>
         cache (snd (PrepareContext now c query sc)) = cache sc"
  using assms by (simp add: PrepareContext_def)

theorem PrepareContext_failure_leaves_cache_witness:
  "map_of (cache twoEntries) ''SELEC 3'' = None \<and>
   prep twoEntries (calls twoEntries) Background ''SELEC 3'' = Inl (Err ''syntax error'') \<and>
   fst (PrepareContext 7 Background ''SELEC 3'' twoEntries) = Inl (Err ''syntax error'') \<and>
   cache (snd (PrepareContext 7 Background ''SELEC 3'' twoEntries)) =
     [(''SELECT 1'', \<lparr>stmt = Stmt 1, lastUse = 0\<rparr>),
      (''SELECT 2'', \<lparr>stmt = Stmt 2, lastUse = 3 * Hour\<rparr>)]"
proof -
  have a: "map_of (cache twoEntries) ''SELEC 3'' = None"
    by (simp add: twoEntries_def)
  have b: "prep twoEntries (calls twoEntries) Background ''SELEC 3'' = Inl (Err ''syntax error'')"
    by (simp add: twoEntries_def selective_def)
  have c: "cache twoEntries =
     [(''SELECT 1'', \<lparr>stmt = Stmt 1, lastUse = 0\<rparr>),
      (''SELECT 2'', \<lparr>stmt = Stmt 2, lastUse = 3 * Hour\<rparr>)]"
    by (simp add: twoEntries_def)
  show ?thesis
    using PrepareContext_failure_leaves_cache [OF a b, of 7] a b c by simp
qed

subsection \<open>A cached statement stays while it is in use\<close>

lemma Sub_le: "d \<le> maxAge \<Longrightarrow> t - u \<le> d \<Longrightarrow> \<not> Sub t u > maxAge"
  by (simp add: Sub_def Let_def maxAge_def Hour_def minDuration_def maxDuration_def)

lemma cachedSince_after_prepare:
  "wellFormed sc \<Longrightarrow> PrepareContext t0 c q sc = (Inr h, sc1) \<Longrightarrow> cachedSince t0 q h sc1"
  using PrepareContext_wellFormed [of sc t0 c q] PrepareContext_lookup [of t0 c q sc q]
  by (auto simp: cachedSince_def PrepareContext_def split: option.splits sum.splits)

lemma cachedSince_step:
  assumes "cachedSince t0 q h sc" and "inWindow t0 q ev"
  shows "cachedSince t0 q h (step ev sc)"
proof (cases ev)
  case (EvPrepare now c query)
  with assms show ?thesis
    using PrepareContext_wellFormed [of sc now c query]
      PrepareContext_lookup [of now c query sc q]
    by (auto simp: cachedSince_def split: option.splits)
next
  case (EvTick clk)
  from assms obtain s where s: "map_of (cache sc) q = Some s" "stmt s = h" "t0 \<le> lastUse s"
    and w: "wellFormed sc"
    by (auto simp: cachedSince_def split: option.splits)
  have "clk q - lastUse s \<le> clk q - t0" using s by simp
  moreover have "clk q - t0 \<le> maxAge" using assms EvTick by simp
  ultimately have "\<not> Sub (clk q) (lastUse s) > maxAge" by (rule Sub_le [rotated])
  then show ?thesis
    using s w cleanupTick_wellFormed [OF w, of maxAge clk]
      cleanupTick_lookup [OF w, of maxAge clk q]
    by (simp add: cachedSince_def EvTick)
qed

lemma cachedSince_run:
  "cachedSince t0 q h sc \<Longrightarrow> list_all (inWindow t0 q) evs \<Longrightarrow> cachedSince t0 q h (run evs sc)"
  by (induction evs arbitrary: sc) (simp_all add: cachedSince_step)

text \<open>
  C2. After \<open>PrepareContext\<close> has returned the statement \<open>h\<close> for \<open>q\<close> at time \<open>t0\<close>, let
  any calls of \<open>PrepareContext\<close> and any rounds of the janitor follow, all within the
  window of \<open>maxAge\<close> from \<open>t0\<close>. A further \<open>PrepareContext\<close> for \<open>q\<close> then returns \<open>h\<close>
  again, and the trace of calls on the preparer is what it was before that call.
\<close>

theorem PrepareContext_idempotent:
  assumes "wellFormed sc"
    and "fst (PrepareContext t0 c q sc) = Inr h"
    and "list_all (inWindow t0 q) evs"
  shows "fst (PrepareContext now c' q (run evs (snd (PrepareContext t0 c q sc)))) = Inr h \<and>
         calls (snd (PrepareContext now c' q (run evs (snd (PrepareContext t0 c q sc))))) =
           calls (run evs (snd (PrepareContext t0 c q sc)))"
proof -
  let ?sc1 = "snd (PrepareContext t0 c q sc)"
  have "PrepareContext t0 c q sc = (Inr h, ?sc1)"
    using assms(2) by (simp add: prod_eq_iff)
  then have "cachedSince t0 q h ?sc1"
    using assms(1) by (rule cachedSince_after_prepare [rotated])
  then have "cachedSince t0 q h (run evs ?sc1)"
    using assms(3) by (rule cachedSince_run)
  then obtain s where "map_of (cache (run evs ?sc1)) q = Some s" "stmt s = h"
    by (auto simp: cachedSince_def split: option.splits)
  then show ?thesis by (simp add: PrepareContext_hit)
qed

theorem PrepareContext_idempotent_witness:
  "wellFormed (NewStmtCacher numbering) \<and>
   fst (PrepareContext 0 Background ''SELECT 1'' (NewStmtCacher numbering)) = Inr (Stmt 0) \<and>
   list_all (inWindow 0 ''SELECT 1'')
     [EvPrepare Hour (Ctx 1) ''SELECT 2'', EvTick (\<lambda>k. 4 * Hour)] \<and>
   fst (PrepareContext (4 * Hour) Background ''SELECT 1''
          (run [EvPrepare Hour (Ctx 1) ''SELECT 2'', EvTick (\<lambda>k. 4 * Hour)]
             (snd (PrepareContext 0 Background ''SELECT 1'' (NewStmtCacher numbering))))) =
     Inr (Stmt 0) \<and>
   calls (snd (PrepareContext (4 * Hour) Background ''SELECT 1''
          (run [EvPrepare Hour (Ctx 1) ''SELECT 2'', EvTick (\<lambda>k. 4 * Hour)]
             (snd (PrepareContext 0 Background ''SELECT 1'' (NewStmtCacher numbering)))))) =
     [PrepareContextCall Background ''SELECT 1'', PrepareContextCall (Ctx 1) ''SELECT 2'']"
proof -
  have w: "wellFormed (NewStmtCacher numbering)"
    by (simp add: wellFormed_def NewStmtCacher_def)
  have p: "fst (PrepareContext 0 Background ''SELECT 1'' (NewStmtCacher numbering)) = Inr (Stmt 0)"
    by (simp add: PrepareContext_def NewStmtCacher_def numbering_def)
  have e: "list_all (inWindow 0 ''SELECT 1'')
     [EvPrepare Hour (Ctx 1) ''SELECT 2'', EvTick (\<lambda>k. 4 * Hour)]"
    by (simp add: Hour_def maxAge_def)
  have r: "calls (run [EvPrepare Hour (Ctx 1) ''SELECT 2'', EvTick (\<lambda>k. 4 * Hour)]
             (snd (PrepareContext 0 Background ''SELECT 1'' (NewStmtCacher numbering)))) =
     [PrepareContextCall Background ''SELECT 1'', PrepareContextCall (Ctx 1) ''SELECT 2'']"
    by (simp add: PrepareContext_def NewStmtCacher_def numbering_def cleanupTick_def
        Sub_def Let_def maxAge_def Hour_def minDuration_def maxDuration_def)
  show ?thesis
    using PrepareContext_idempotent [OF w p e, of "4 * Hour" Background] w p e r by simp
qed

subsection \<open>Single rows\<close>

text \<open>
  C7. The single-row operations return a scanner that is not nil, on every input:
  \<open>QueryRowWith\<close> and \<open>QueryRowWithContext\<close> a \<open>Row\<close>, the cache's \<open>QueryRowContext\<close> and
  \<open>QueryRow\<close> a \<open>Row\<close> or the row of the statement. When \<open>ToSql\<close> fails with \<open>e\<close>, or
  when preparing the statement fails with \<open>e\<close>, scanning the result returns \<open>e\<close>.
\<close>

theorem single_row_never_nil:
  "fst (QueryRowWith db s tr) \<noteq> NilScanner \<and>
   fst (QueryRowWithContext c dbc s tr) \<noteq> NilScanner \<and>
   fst (QueryRowContext m now c query args sc) \<noteq> NilScanner \<and>
   fst (QueryRow m now query args sc) \<noteq> NilScanner \<and>
   Scan (fst (QueryRowWith db (query, args, Some e) tr)) = Returned (Some e) \<and>
   Scan (fst (QueryRowWithContext c dbc (query, args, Some e) tr)) = Returned (Some e) \<and>
   (fst (PrepareContext now c query sc) = Inl e \<longrightarrow>
      Scan (fst (QueryRowContext m now c query args sc)) = Returned (Some e)) \<and>
   (fst (Prepare now query sc) = Inl e \<longrightarrow>
      Scan (fst (QueryRow m now query args sc)) = Returned (Some e))"
proof -
  have a: "fst (QueryRowContext m now c' query args sc) \<noteq> NilScanner" for c'
    by (simp add: QueryRowContext_def split: prod.splits sum.splits)
  have b: "fst (PrepareContext now c' query sc) = Inl e \<Longrightarrow>
      Scan (fst (QueryRowContext m now c' query args sc)) = Returned (Some e)" for c'
    by (auto simp: QueryRowContext_def split: prod.splits sum.splits)
  show ?thesis
    using a [of c] a [of Background] b [of c] b [of Background]
    by (simp add: QueryRowWith_def QueryRowWithContext_def QueryRow_def Prepare_def
        split: prod.splits)
qed

theorem single_row_never_nil_witness:
  "fst (PrepareContext 7 Background ''SELEC 3'' twoEntries) = Inl (Err ''syntax error'') \<and>
   fst (Prepare 7 ''SELEC 3'' twoEntries) = Inl (Err ''syntax error'') \<and>
   fst (QueryRowContext plainStmts 7 Background ''SELEC 3'' [] twoEntries) =
     Row NilScanner (Some (Err ''syntax error'')) \<and>
   Scan (fst (QueryRowContext plainStmts 7 Background ''SELEC 3'' [] twoEntries)) =
     Returned (Some (Err ''syntax error'')) \<and>
   Scan (fst (QueryRow plainStmts 7 ''SELEC 3'' [] twoEntries)) =
     Returned (Some (Err ''syntax error''))"
proof -
  have p: "fst (PrepareContext 7 Background ''SELEC 3'' twoEntries) = Inl (Err ''syntax error'')"
    by (simp add: PrepareContext_def twoEntries_def selective_def)
  then have q: "fst (Prepare 7 ''SELEC 3'' twoEntries) = Inl (Err ''syntax error'')"
    by (simp add: Prepare_def)
  have r: "fst (QueryRowContext plainStmts 7 Background ''SELEC 3'' [] twoEntries) =
     Row NilScanner (Some (Err ''syntax error''))"
    by (simp add: QueryRowContext_def PrepareContext_def twoEntries_def selective_def)
  show ?thesis
    using single_row_never_nil [of "\<lambda>tr query args. NilScanner" emptyValues "[]" Background
        "\<lambda>tr c query args. NilScanner" plainStmts 7 "''SELEC 3''" "[]" twoEntries
        "Err ''syntax error''"]
      p q r
    by simp
qed

subsection \<open>The operations without a context\<close>

text \<open>
  C10. \<open>Prepare\<close>, \<open>Exec\<close>, \<open>Query\<close> and \<open>QueryRow\<close> of the cache return the same result
  and leave the same cache and the same trace as \<open>PrepareContext\<close>, \<open>ExecContext\<close>,
  \<open>QueryContext\<close> and \<open>QueryRowContext\<close> called with the background context.
\<close>

theorem background_counterparts:
  "Prepare now query sc = PrepareContext now Background query sc \<and>
   Exec m now query args sc = ExecContext m now Background query args sc \<and>
   Query m now query args sc = QueryContext m now Background query args sc \<and>
   QueryRow m now query args sc = QueryRowContext m now Background query args sc"
  by (simp add: Prepare_def Exec_def Query_def QueryRow_def)

end
